theory Spec2Isabelle
  imports Main
begin

section \<open>The music player of \<open>src/app/index.tsx\<close>\<close>

text \<open>
  The component \<open>App\<close> keeps five pieces of React state and talks to two outside
  parties: the audio engine (\<open>Audio.Sound\<close> of expo-av) and the SQLite catalogue.
  Its functions are closures over the state \<^emph>\<open>as it was at the render that created
  them\<close>; an \<open>async\<close> function keeps those captured values across every \<open>await\<close>.
  The model makes this explicit:
  \<^item> the React state is a record; a closure is a copy of that record;
  \<^item> an \<open>async\<close> function that is suspended at an \<open>await\<close> on an engine call is a
    \<open>task\<close> holding its closure; the outcome of the engine call is an input;
  \<^item> the engine is opaque: the model records the calls made to it and the units it
    has created, and takes whether a call resolves or rejects from the environment;
  \<^item> user presses, the catalogue's answer and the settling of engine calls are events.
\<close>

subsection \<open>Data\<close>

text \<open>\<open>interface Song\<close>; the fields \<open>id\<close> and \<open>image\<close> carry a prefix, since HOL has
  constants of these names.\<close>

record Song =
  song_id :: int
  title :: string
  uri :: string
  song_image :: "string option"

text \<open>The numbers an index computation of the source can yield: an integer, or \<open>NaN\<close>
  (the remainder by zero).\<close>

datatype jsnum = NaN | Num int

fun js_add :: "jsnum \<Rightarrow> jsnum \<Rightarrow> jsnum" where
  "js_add (Num a) (Num b) = Num (a + b)"
| "js_add _ _ = NaN"

fun js_sub :: "jsnum \<Rightarrow> jsnum \<Rightarrow> jsnum" where
  "js_sub (Num a) (Num b) = Num (a - b)"
| "js_sub _ _ = NaN"

text \<open>The operator \<open>%\<close>: the remainder takes the sign of the dividend, and \<open>x % 0\<close> is
  \<open>NaN\<close>.\<close>

fun js_rem :: "jsnum \<Rightarrow> jsnum \<Rightarrow> jsnum" where
  "js_rem (Num a) (Num b) = (if b = 0 then NaN else Num (sgn a * (\<bar>a\<bar> mod \<bar>b\<bar>)))"
| "js_rem _ _ = NaN"

text \<open>\<open>songs[index]\<close>: \<open>undefined\<close> (here \<open>None\<close>) outside the array and at \<open>NaN\<close>.\<close>

fun song_at :: "Song list \<Rightarrow> jsnum \<Rightarrow> Song option" where
  "song_at xs NaN = None"
| "song_at xs (Num i) = (if 0 \<le> i \<and> i < int (length xs) then Some (xs ! nat i) else None)"

type_synonym handle = nat

text \<open>The \<open>useState\<close> cells of \<open>App\<close>.\<close>

record app_state =
  sound :: "handle option"
  isPlaying :: bool
  isSoundLoaded :: bool
  currentTrackIndex :: jsnum
  songs :: "Song list"

type_synonym closure = app_state

text \<open>Calls to the audio engine, and how the engine settles one.\<close>

datatype call =
    UnloadAsync handle
  | CreateAsync string
  | PlayAsync handle
  | PauseAsync handle
  | StopAsync handle

datatype outcome = Resolved | Rejected

datatype console_msg = ConsoleError string | ConsoleWarn string

text \<open>Who awaits \<open>loadTrack\<close>: the effect on \<open>currentTrackIndex\<close> (which ignores the
  promise), or \<open>nextTrack\<close>/\<open>previousTrack\<close> (which go on with \<open>playPauseTrack()\<close>).\<close>

datatype caller = Effect | Transport

text \<open>A suspended \<open>async\<close> function: the \<open>await\<close> it stands at, with its closure and
  the locals it still needs (\<open>index\<close> before the \<open>try\<close> block, \<open>track\<close> inside it).\<close>

datatype task =
    AwaitUnload closure jsnum caller
  | AwaitCreate closure string caller
  | AwaitPlayPause closure
  | AwaitStop closure

fun closure_of :: "task \<Rightarrow> closure" where
  "closure_of (AwaitUnload cl index who) = cl"
| "closure_of (AwaitCreate cl track who) = cl"
| "closure_of (AwaitPlayPause cl) = cl"
| "closure_of (AwaitStop cl) = cl"

text \<open>The catalogue: before the mount effect, while \<open>insertSongs().then(fetchSongs)\<close>
  is under way, and after the \<open>SELECT\<close> has answered.\<close>

datatype catalog_phase = Unmounted | Seeding | Listed

text \<open>
  The whole configuration. \<open>st\<close> is the React state of the latest render;
  \<open>effect_deps\<close> is the dependency \<open>[currentTrackIndex]\<close> of the render at which the
  index effect last ran and \<open>cleanup_sound\<close> the \<open>sound\<close> its cleanup function captured;
  \<open>tasks\<close> are the suspended functions; \<open>calls\<close> is the log of engine calls and \<open>units\<close>
  lists the locator of every unit the engine has created; the handle of a unit is its
  position in that list.
\<close>

record config =
  st :: app_state
  effect_deps :: jsnum
  cleanup_sound :: "handle option"
  tasks :: "task list"
  calls :: "call list"
  units :: "string list"
  console :: "console_msg list"
  catalog :: catalog_phase

subsection \<open>The engine and the console\<close>

definition engine_call :: "call \<Rightarrow> config \<Rightarrow> config" where
  "engine_call k c = c\<lparr>calls := calls c @ [k]\<rparr>"

text \<open>An \<open>await\<close> on an engine call: the call is made and the function is suspended.\<close>

definition suspend :: "task \<Rightarrow> call \<Rightarrow> config \<Rightarrow> config" where
  "suspend t k c = (engine_call k c)\<lparr>tasks := tasks c @ [t]\<rparr>"

definition console_error :: "string \<Rightarrow> config \<Rightarrow> config" where
  "console_error m c = c\<lparr>console := console c @ [ConsoleError m]\<rparr>"

definition console_warn :: "string \<Rightarrow> config \<Rightarrow> config" where
  "console_warn m c = c\<lparr>console := console c @ [ConsoleWarn m]\<rparr>"

text \<open>A unit counts as released from the moment its unload is requested; the units
  still held by the engine are those created and never unloaded.\<close>

definition unloaded :: "config \<Rightarrow> handle \<Rightarrow> bool" where
  "unloaded c h = (UnloadAsync h \<in> set (calls c))"

definition live_units :: "config \<Rightarrow> handle list" where
  "live_units c = filter (\<lambda>h. \<not> unloaded c h) [0 ..< length (units c)]"

definition unload_count :: "config \<Rightarrow> handle \<Rightarrow> nat" where
  "unload_count c h = length (filter (\<lambda>k. k = UnloadAsync h) (calls c))"

subsection \<open>The functions of \<open>App\<close>\<close>

text \<open>\<open>playPauseTrack\<close>, up to its \<open>await\<close>.\<close>

definition playPauseTrack :: "closure \<Rightarrow> config \<Rightarrow> config" where
  "playPauseTrack cl c =
     (case sound cl of
        None \<Rightarrow> console_warn ''Sound is not loaded yet.'' c
      | Some s \<Rightarrow>
          if \<not> isSoundLoaded cl then console_warn ''Sound is not loaded yet.'' c
          else if isPlaying cl then suspend (AwaitPlayPause cl) (PauseAsync s) c
          else suspend (AwaitPlayPause cl) (PlayAsync s) c)"

text \<open>\<open>stopTrack\<close>, up to its \<open>await\<close>.\<close>

definition stopTrack :: "closure \<Rightarrow> config \<Rightarrow> config" where
  "stopTrack cl c =
     (case sound cl of
        Some s \<Rightarrow>
          if isSoundLoaded cl then suspend (AwaitStop cl) (StopAsync s) c
          else console_warn ''Sound is not loaded, unable to stop.'' c
      | None \<Rightarrow> console_warn ''Sound is not loaded, unable to stop.'' c)"

text \<open>What follows once \<open>loadTrack\<close> has returned: nothing in the effect; in
  \<open>nextTrack\<close> and \<open>previousTrack\<close> the line \<open>playPauseTrack(); // Autoplay after loading\<close>,
  which is the \<open>playPauseTrack\<close> of the render the handler itself belongs to. It runs in
  the step in which \<open>loadTrack\<close> returns. (If \<open>loadTrack\<close> returns without having awaited
  anything, which needs no sound held and \<open>songs[index]\<close> undefined, the source runs the
  line only after the render that follows the press; the buttons are on the screen only
  for an index inside a non-empty playlist, where the next index is inside it too.)\<close>

fun after_loadTrack :: "caller \<Rightarrow> closure \<Rightarrow> config \<Rightarrow> config" where
  "after_loadTrack Effect cl c = c"
| "after_loadTrack Transport cl c = playPauseTrack cl c"

text \<open>The \<open>try\<close> block of \<open>loadTrack\<close>, up to \<open>await Audio.Sound.createAsync\<close>. Reading
  \<open>.uri\<close> of \<open>undefined\<close> throws a TypeError, which the \<open>catch\<close> logs.\<close>

definition loadTrack_try :: "closure \<Rightarrow> jsnum \<Rightarrow> caller \<Rightarrow> config \<Rightarrow> config" where
  "loadTrack_try cl index who c =
     (case song_at (songs cl) index of
        None \<Rightarrow> after_loadTrack who cl (console_error ''Error loading audio track:'' c)
      | Some song \<Rightarrow> suspend (AwaitCreate cl (uri song) who) (CreateAsync (uri song)) c)"

text \<open>\<open>loadTrack\<close>, up to its first \<open>await\<close>.\<close>

definition loadTrack :: "closure \<Rightarrow> jsnum \<Rightarrow> caller \<Rightarrow> config \<Rightarrow> config" where
  "loadTrack cl index who c =
     (case sound cl of
        Some s \<Rightarrow> suspend (AwaitUnload cl index who) (UnloadAsync s) c
      | None \<Rightarrow> loadTrack_try cl index who c)"

definition setCurrentTrackIndex :: "jsnum \<Rightarrow> config \<Rightarrow> config" where
  "setCurrentTrackIndex i c = c\<lparr>st := (st c)\<lparr>currentTrackIndex := i\<rparr>\<rparr>"

text \<open>\<open>nextTrack\<close> and \<open>previousTrack\<close>, up to \<open>await loadTrack(...)\<close>.\<close>

definition nextTrack :: "closure \<Rightarrow> config \<Rightarrow> config" where
  "nextTrack cl c =
     (let nextIndex = js_rem (js_add (currentTrackIndex cl) (Num 1))
                             (Num (int (length (songs cl))))
      in loadTrack cl nextIndex Transport (setCurrentTrackIndex nextIndex c))"

definition previousTrack :: "closure \<Rightarrow> config \<Rightarrow> config" where
  "previousTrack cl c =
     (let prevIndex = js_rem (js_add (js_sub (currentTrackIndex cl) (Num 1))
                                     (Num (int (length (songs cl)))))
                             (Num (int (length (songs cl))))
      in loadTrack cl prevIndex Transport (setCurrentTrackIndex prevIndex c))"

text \<open>The effect \<open>useEffect(..., [currentTrackIndex])\<close>: the cleanup of its previous
  run (an unload that nobody awaits), then \<open>loadTrack(currentTrackIndex)\<close> of the
  new render.\<close>

definition run_cleanup :: "config \<Rightarrow> config" where
  "run_cleanup c =
     (case cleanup_sound c of Some s \<Rightarrow> engine_call (UnloadAsync s) c | None \<Rightarrow> c)"

definition run_effect :: "config \<Rightarrow> config" where
  "run_effect c =
     (loadTrack (st c) (currentTrackIndex (st c)) Effect c)
       \<lparr>effect_deps := currentTrackIndex (st c), cleanup_sound := sound (st c)\<rparr>"

text \<open>The render that follows a state update: React runs the effect only if its
  dependency differs from the one of the previous render (so setting the index to the
  value it has does nothing).\<close>

definition commit :: "config \<Rightarrow> config" where
  "commit c =
     (if currentTrackIndex (st c) = effect_deps c then c
      else run_effect (run_cleanup c))"

text \<open>An engine call settles and the function that awaited it goes on. A new unit gets
  the next free handle; \<open>setSound(newSound)\<close> and \<open>setIsSoundLoaded(true)\<close> run one
  after the other with nothing in between. The \<open>await sound.unloadAsync()\<close> of
  \<open>loadTrack\<close> stands before the \<open>try\<close>: if it is rejected, \<open>loadTrack\<close> ends there, and
  so does the \<open>nextTrack\<close> or \<open>previousTrack\<close> that awaits it. The \<open>setIsPlaying\<close> of
  \<open>playPauseTrack\<close> writes the negation of the \<open>isPlaying\<close> its closure captured.\<close>

fun resume :: "task \<Rightarrow> outcome \<Rightarrow> config \<Rightarrow> config" where
  "resume (AwaitUnload cl index who) Resolved c = loadTrack_try cl index who c"
| "resume (AwaitUnload cl index who) Rejected c = c"
| "resume (AwaitCreate cl track who) Resolved c =
     (let newSound = length (units c)
      in after_loadTrack who cl
           (c\<lparr>units := units c @ [track],
              st := (st c)\<lparr>sound := Some newSound, isSoundLoaded := True\<rparr>\<rparr>))"
| "resume (AwaitCreate cl track who) Rejected c =
     after_loadTrack who cl (console_error ''Error loading audio track:'' c)"
| "resume (AwaitPlayPause cl) Resolved c = c\<lparr>st := (st c)\<lparr>isPlaying := \<not> isPlaying cl\<rparr>\<rparr>"
| "resume (AwaitPlayPause cl) Rejected c = console_error ''Error in play/pause:'' c"
| "resume (AwaitStop cl) Resolved c = c\<lparr>st := (st c)\<lparr>isPlaying := False\<rparr>\<rparr>"
| "resume (AwaitStop cl) Rejected c = console_error ''Error stopping the track:'' c"

subsection \<open>Events\<close>

text \<open>The view shows the four transport buttons only under
  \<open>songs.length > 0 && songs[currentTrackIndex]\<close>, and one row per song.\<close>

definition controls_rendered :: "app_state \<Rightarrow> bool" where
  "controls_rendered s = (0 < length (songs s) \<and> song_at (songs s) (currentTrackIndex s) \<noteq> None)"

datatype event =
    Mount
  | FetchSongsOk "Song list"
  | FetchSongsErr
  | PressItem nat
  | PressPrevious
  | PressPlayPause
  | PressStop
  | PressNext
  | Settle nat outcome

definition initial :: config where
  "initial =
     \<lparr>st = \<lparr>sound = None, isPlaying = False, isSoundLoaded = False,
            currentTrackIndex = Num 0, songs = []\<rparr>,
      effect_deps = Num 0, cleanup_sound = None, tasks = [], calls = [], units = [],
      console = [], catalog = Unmounted\<rparr>"

text \<open>The first render: the mount effect starts seeding the catalogue, and the index
  effect runs for the first time.\<close>

definition mount :: "config \<Rightarrow> config" where
  "mount c = run_effect (c\<lparr>catalog := Seeding\<rparr>)"

definition remove_nth :: "nat \<Rightarrow> 'a list \<Rightarrow> 'a list" where
  "remove_nth k xs = take k xs @ drop (Suc k) xs"

text \<open>One event; \<open>None\<close> when the event cannot occur in the configuration (a button
  that is not on the screen, a task that does not exist, a second mount).\<close>

fun step :: "event \<Rightarrow> config \<Rightarrow> config option" where
  "step Mount c = (if catalog c = Unmounted then Some (mount c) else None)"
| "step (FetchSongsOk rows) c =
     (if catalog c = Seeding then Some (c\<lparr>st := (st c)\<lparr>songs := rows\<rparr>, catalog := Listed\<rparr>)
      else None)"
| "step FetchSongsErr c =
     (if catalog c = Seeding then Some ((console_error ''Error fetching songs:'' c)\<lparr>catalog := Listed\<rparr>)
      else None)"
| "step (PressItem index) c =
     (if catalog c \<noteq> Unmounted \<and> index < length (songs (st c))
      then Some (commit (setCurrentTrackIndex (Num (int index)) c)) else None)"
| "step PressPrevious c =
     (if catalog c \<noteq> Unmounted \<and> controls_rendered (st c)
      then Some (commit (previousTrack (st c) c)) else None)"
| "step PressPlayPause c =
     (if catalog c \<noteq> Unmounted \<and> controls_rendered (st c)
      then Some (playPauseTrack (st c) c) else None)"
| "step PressStop c =
     (if catalog c \<noteq> Unmounted \<and> controls_rendered (st c)
      then Some (stopTrack (st c) c) else None)"
| "step PressNext c =
     (if catalog c \<noteq> Unmounted \<and> controls_rendered (st c)
      then Some (commit (nextTrack (st c) c)) else None)"
| "step (Settle k r) c =
     (if k < length (tasks c)
      then Some (resume (tasks c ! k) r (c\<lparr>tasks := remove_nth k (tasks c)\<rparr>)) else None)"

fun run :: "event list \<Rightarrow> config \<Rightarrow> config option" where
  "run [] c = Some c"
| "run (e # es) c = (case step e c of None \<Rightarrow> None | Some c' \<Rightarrow> run es c')"

text \<open>A sequence of events from the first render on: whether it can occur, and the
  configuration it leaves.\<close>

definition possible :: "event list \<Rightarrow> bool" where
  "possible es = (run es initial \<noteq> None)"

definition after :: "event list \<Rightarrow> config" where
  "after es = (case run es initial of Some c \<Rightarrow> c | None \<Rightarrow> initial)"

text \<open>A press as the user makes it: a button or row that is not on the screen cannot
  be pressed, and the configuration stays as it is.\<close>

definition press :: "event \<Rightarrow> config \<Rightarrow> config" where
  "press e c = (case step e c of Some c' \<Rightarrow> c' | None \<Rightarrow> c)"

fun presses :: "event list \<Rightarrow> config \<Rightarrow> config" where
  "presses [] c = c"
| "presses (e # es) c = presses es (press e c)"

text \<open>The catalogue that \<open>insertSongs\<close> seeds, as the \<open>SELECT\<close> lists it after the table
  was dropped and created anew.\<close>

definition hardcodedSongs :: "Song list" where
  "hardcodedSongs =
     [\<lparr>song_id = 1, title = ''Barro - Duki'',
       uri = ''https://audio.jukehost.co.uk/SyEabX1oMUCZSBoR9FgGdL0hfQoPh0iG'',
       song_image = Some ''https://i.scdn.co/image/ab67616d0000b273c43ff46b46af2ee509267b63''\<rparr>,
      \<lparr>song_id = 2, title = ''Enganchados #20 - DJ Sol'',
       uri = ''https://audio.jukehost.co.uk/bJEkbddNGcu0yPEQm3z2NdUuX3TKH3Q2'',
       song_image = Some ''https://yt3.googleusercontent.com/Wb3Tv03dV9EtUMJj6I4yynWVyvX6TGb367TQUlSq33fOHxt0d84ItAvPN0FepmzFCxADPjasRSo=s900-c-k-c0x00ffffff-no-rj''\<rparr>,
      \<lparr>song_id = 3, title = ''Hey Lil Mama - Eladio Carrion '',
       uri = ''https://audio.jukehost.co.uk/mG4ce1SARwwOBRxUa83lDbNKpH7ZtIi2'',
       song_image = Some ''https://i.scdn.co/image/ab67616d0000b273ec105eaf625391e95540ba97''\<rparr>,
      \<lparr>song_id = 4, title = ''Diabla - Kidd Keo'',
       uri = ''https://audio.jukehost.co.uk/MuF9okvPZ8p5vEGof6XVqFwV5jyvnBq2'',
       song_image = Some ''https://images.genius.com/df9ae33e3d087adc9df125e65081edd8.1000x1000x1.png''\<rparr>,
      \<lparr>song_id = 5, title = ''Secretos - C.R.O'',
       uri = ''https://audio.jukehost.co.uk/2hDeS6FdQHl6Fm5vhXfLpfi5VoVWte9X'',
       song_image = Some ''https://i.scdn.co/image/ab67616d0000b273717a4d2b63685f7b2a3d1b9c''\<rparr>]"

subsection \<open>Invariants of the reachable configurations\<close>

text \<open>What a suspended function's closure and the current state have in common: a
  closure that saw the loaded flag set still finds it set, and \<open>playPauseTrack\<close> is
  suspended only behind its guard.\<close>

fun task_inv :: "app_state \<Rightarrow> task \<Rightarrow> bool" where
  "task_inv s (AwaitPlayPause cl) = (isSoundLoaded cl \<and> isSoundLoaded s)"
| "task_inv s t = (isSoundLoaded (closure_of t) \<longrightarrow> isSoundLoaded s)"

definition flags_inv :: "config \<Rightarrow> bool" where
  "flags_inv c =
     ((isPlaying (st c) \<longrightarrow> isSoundLoaded (st c)) \<and>
      (isSoundLoaded (st c) \<longrightarrow> sound (st c) \<noteq> None) \<and>
      (\<forall>t \<in> set (tasks c). task_inv (st c) t))"

definition index_inv :: "config \<Rightarrow> bool" where
  "index_inv c =
     (effect_deps c = currentTrackIndex (st c) \<and>
      (catalog c \<noteq> Listed \<longrightarrow> songs (st c) = [] \<and> currentTrackIndex (st c) = Num 0) \<and>
      (\<exists>i. currentTrackIndex (st c) = Num i \<and> 0 \<le> i \<and>
           (songs (st c) \<noteq> [] \<longrightarrow> i < int (length (songs (st c))))))"


subsection \<open>Scenarios\<close>

text \<open>Event sequences used to run the player on concrete inputs. In all of them the
  catalogue answers with the five seeded songs.\<close>

definition seeded :: "event list" where
  "seeded = [Mount, FetchSongsOk hardcodedSongs]"

text \<open>The second row is tapped and its load succeeds: unit \<open>0\<close> is held.\<close>

definition loaded_track_1 :: "event list" where
  "loaded_track_1 = seeded @ [PressItem 1, Settle 0 Resolved]"

definition playing_track_1 :: "event list" where
  "playing_track_1 = loaded_track_1 @ [PressPlayPause, Settle 0 Resolved]"

text \<open>The third row is tapped; the unload of unit \<open>0\<close> has resolved and the creation
  of the new unit is pending, and then fails.\<close>

definition switching_to_2 :: "event list" where
  "switching_to_2 = loaded_track_1 @ [PressItem 2, Settle 0 Resolved]"

definition failed_switch :: "event list" where
  "failed_switch = switching_to_2 @ [Settle 0 Rejected]"

text \<open>With the third track loaded, the first row and then the second row are tapped
  before either load completes; both unloads resolve, both creations are pending
  (task \<open>0\<close> for the first row, task \<open>1\<close> for the second). Then the second
  selection's load completes, and after it the first selection's.\<close>

definition two_selections :: "event list" where
  "two_selections =
     seeded @ [PressItem 2, Settle 0 Resolved, PressItem 0, PressItem 1,
               Settle 0 Resolved, Settle 0 Resolved]"

definition second_load_done :: "event list" where
  "second_load_done = two_selections @ [Settle 1 Resolved]"

definition first_load_done_late :: "event list" where
  "first_load_done_late = second_load_done @ [Settle 0 Resolved]"

text \<open>Next is pressed right after the catalogue arrived; both loads it starts succeed.\<close>

definition first_next :: "event list" where
  "first_next = seeded @ [PressNext, Settle 0 Resolved, Settle 0 Resolved]"

text \<open>Next is pressed while the second track plays; every engine call resolves.\<close>

definition next_while_playing :: "event list" where
  "next_while_playing =
     playing_track_1 @ [PressNext, Settle 0 Resolved, Settle 0 Resolved, Settle 0 Resolved,
                        Settle 0 Resolved, Settle 0 Resolved]"

text \<open>Next is pressed with the second track loaded and paused; the unloads and the
  creations resolve, the play call on the unloaded unit is rejected.\<close>

definition next_after_load :: "event list" where
  "next_after_load =
     loaded_track_1 @ [PressNext, Settle 0 Resolved, Settle 0 Resolved, Settle 0 Resolved,
                       Settle 0 Resolved, Settle 0 Rejected]"




text \<open>The third row is tapped while the second track plays; the unload of unit \<open>0\<close>
  has resolved, and then the creation of the new unit fails.\<close>

definition switching_while_playing :: "event list" where
  "switching_while_playing = playing_track_1 @ [PressItem 2, Settle 0 Resolved]"

definition failed_switch_while_playing :: "event list" where
  "failed_switch_while_playing = switching_while_playing @ [Settle 0 Rejected]"

section \<open>Properties\<close>

subsection \<open>What each function leaves alone\<close>

lemma st_suspend [simp]: "st (suspend t k c) = st c"
  by (simp add: suspend_def engine_call_def)

lemma st_console_warn [simp]: "st (console_warn m c) = st c"
  by (simp add: console_warn_def)

lemma st_console_error [simp]: "st (console_error m c) = st c"
  by (simp add: console_error_def)

lemma st_playPauseTrack [simp]: "st (playPauseTrack cl c) = st c"
  by (simp add: playPauseTrack_def split: option.splits)

lemma st_stopTrack [simp]: "st (stopTrack cl c) = st c"
  by (simp add: stopTrack_def split: option.splits)

lemma st_after_loadTrack [simp]: "st (after_loadTrack who cl c) = st c"
  by (cases who) simp_all

lemma st_loadTrack_try [simp]: "st (loadTrack_try cl index who c) = st c"
  by (simp add: loadTrack_try_def split: option.splits)

lemma st_loadTrack [simp]: "st (loadTrack cl index who c) = st c"
  by (simp add: loadTrack_def split: option.splits)

lemma st_run_cleanup [simp]: "st (run_cleanup c) = st c"
  by (simp add: run_cleanup_def engine_call_def split: option.splits)

lemma st_run_effect [simp]: "st (run_effect c) = st c"
  by (simp add: run_effect_def)

lemma st_commit [simp]: "st (commit c) = st c"
  by (simp add: commit_def)

lemma st_nextTrack: "st (nextTrack cl c) = (st c)\<lparr>currentTrackIndex := js_rem (js_add (currentTrackIndex cl) (Num 1)) (Num (int (length (songs cl))))\<rparr>"
  by (simp add: nextTrack_def Let_def setCurrentTrackIndex_def)

lemma st_previousTrack: "st (previousTrack cl c) = (st c)\<lparr>currentTrackIndex := js_rem (js_add (js_sub (currentTrackIndex cl) (Num 1)) (Num (int (length (songs cl))))) (Num (int (length (songs cl))))\<rparr>"
  by (simp add: previousTrack_def Let_def setCurrentTrackIndex_def)

lemma st_resume_cases:
  "st (resume t r c) = st c \<or>
   (\<exists>track cl who. t = AwaitCreate cl track who \<and> r = Resolved \<and> st (resume t r c) = (st c)\<lparr>sound := Some (length (units c)), isSoundLoaded := True\<rparr>) \<or>
   (\<exists>cl. t = AwaitPlayPause cl \<and> r = Resolved \<and> st (resume t r c) = (st c)\<lparr>isPlaying := \<not> isPlaying cl\<rparr>) \<or>
   (\<exists>cl. t = AwaitStop cl \<and> r = Resolved \<and> st (resume t r c) = (st c)\<lparr>isPlaying := False\<rparr>)"
  by (cases t; cases r) (simp_all add: Let_def)



subsection \<open>The flags\<close>

lemma tasks_suspend [simp]: "tasks (suspend t k c) = tasks c @ [t]"
  by (simp add: suspend_def engine_call_def)

lemma tasks_console_warn [simp]: "tasks (console_warn m c) = tasks c"
  by (simp add: console_warn_def)

lemma tasks_console_error [simp]: "tasks (console_error m c) = tasks c"
  by (simp add: console_error_def)

lemma task_inv_mono:
  "task_inv s t \<Longrightarrow> (isSoundLoaded s \<longrightarrow> isSoundLoaded s') \<Longrightarrow> task_inv s' t"
  by (cases t) auto

lemma flags_inv_suspend:
  "flags_inv c \<Longrightarrow> task_inv (st c) t \<Longrightarrow> flags_inv (suspend t k c)"
  by (simp add: flags_inv_def)

lemma flags_inv_console_warn [simp]: "flags_inv (console_warn m c) = flags_inv c"
  by (simp add: flags_inv_def)

lemma flags_inv_console_error [simp]: "flags_inv (console_error m c) = flags_inv c"
  by (simp add: flags_inv_def)

lemma flags_inv_playPauseTrack:
  "flags_inv c \<Longrightarrow> isSoundLoaded cl \<longrightarrow> isSoundLoaded (st c) \<Longrightarrow> flags_inv (playPauseTrack cl c)"
  by (auto simp: playPauseTrack_def intro!: flags_inv_suspend split: option.splits)

lemma flags_inv_stopTrack:
  "flags_inv c \<Longrightarrow> isSoundLoaded cl \<longrightarrow> isSoundLoaded (st c) \<Longrightarrow> flags_inv (stopTrack cl c)"
  by (auto simp: stopTrack_def intro!: flags_inv_suspend split: option.splits)

lemma flags_inv_after_loadTrack:
  "flags_inv c \<Longrightarrow> isSoundLoaded cl \<longrightarrow> isSoundLoaded (st c) \<Longrightarrow> flags_inv (after_loadTrack who cl c)"
  by (cases who) (simp_all add: flags_inv_playPauseTrack)

lemma flags_inv_loadTrack_try:
  "flags_inv c \<Longrightarrow> isSoundLoaded cl \<longrightarrow> isSoundLoaded (st c) \<Longrightarrow> flags_inv (loadTrack_try cl index who c)"
  by (auto simp: loadTrack_try_def intro!: flags_inv_suspend flags_inv_after_loadTrack split: option.splits)

lemma flags_inv_loadTrack:
  "flags_inv c \<Longrightarrow> isSoundLoaded cl \<longrightarrow> isSoundLoaded (st c) \<Longrightarrow> flags_inv (loadTrack cl index who c)"
  by (auto simp: loadTrack_def intro!: flags_inv_suspend flags_inv_loadTrack_try split: option.splits)

lemma flags_inv_setCurrentTrackIndex [simp]:
  "flags_inv (setCurrentTrackIndex i c) = flags_inv c"
proof -
  have "task_inv ((st c)\<lparr>currentTrackIndex := i\<rparr>) t = task_inv (st c) t" for t
    by (cases t) simp_all
  then show ?thesis by (simp add: flags_inv_def setCurrentTrackIndex_def)
qed

lemma flags_inv_run_cleanup [simp]: "flags_inv (run_cleanup c) = flags_inv c"
  by (simp add: flags_inv_def run_cleanup_def engine_call_def split: option.splits)

lemma flags_inv_run_effect: "flags_inv c \<Longrightarrow> flags_inv (run_effect c)"
proof -
  assume "flags_inv c"
  then have "flags_inv (loadTrack (st c) (currentTrackIndex (st c)) Effect c)"
    by (simp add: flags_inv_loadTrack)
  then show ?thesis by (simp add: flags_inv_def run_effect_def)
qed

lemma flags_inv_commit: "flags_inv c \<Longrightarrow> flags_inv (commit c)"
  by (simp add: commit_def flags_inv_run_effect)

lemma st_setCurrentTrackIndex [simp]:
  "st (setCurrentTrackIndex i c) = (st c)\<lparr>currentTrackIndex := i\<rparr>"
  by (simp add: setCurrentTrackIndex_def)

lemma flags_inv_nextTrack:
  "flags_inv c \<Longrightarrow> flags_inv (nextTrack (st c) c)"
  unfolding nextTrack_def Let_def by (rule flags_inv_loadTrack) simp_all

lemma flags_inv_previousTrack:
  "flags_inv c \<Longrightarrow> flags_inv (previousTrack (st c) c)"
  unfolding previousTrack_def Let_def by (rule flags_inv_loadTrack) simp_all

lemma set_remove_nth: "set (remove_nth k xs) \<subseteq> set xs"
  unfolding remove_nth_def using set_take_subset [of k xs] set_drop_subset [of "Suc k" xs] by auto

lemma flags_inv_remove:
  "flags_inv c \<Longrightarrow> flags_inv (c\<lparr>tasks := remove_nth k (tasks c)\<rparr>)"
  using set_remove_nth [of k "tasks c"] by (auto simp: flags_inv_def)

lemma flags_inv_resume:
  assumes "flags_inv c" and "task_inv (st c) t"
  shows "flags_inv (resume t r c)"
proof (cases t)
  case (AwaitUnload cl index who)
  with assms show ?thesis by (cases r) (simp_all add: flags_inv_loadTrack_try)
next
  case (AwaitCreate cl track who)
  show ?thesis
  proof (cases r)
    case Resolved
    let ?c = "c\<lparr>units := units c @ [track], st := (st c)\<lparr>sound := Some (length (units c)), isSoundLoaded := True\<rparr>\<rparr>"
    have "flags_inv ?c"
      using assms(1) by (auto simp: flags_inv_def intro: task_inv_mono)
    then have "flags_inv (after_loadTrack who cl ?c)"
      by (rule flags_inv_after_loadTrack) simp
    with AwaitCreate Resolved show ?thesis by (simp add: Let_def)
  next
    case Rejected
    with AwaitCreate assms show ?thesis by (simp add: flags_inv_after_loadTrack)
  qed
next
  case (AwaitPlayPause cl)
  with assms show ?thesis
    by (cases r) (auto simp: flags_inv_def intro: task_inv_mono)
next
  case (AwaitStop cl)
  with assms show ?thesis
    by (cases r) (auto simp: flags_inv_def intro: task_inv_mono)
qed

lemma flags_inv_step:
  assumes "flags_inv c" and "step e c = Some c'"
  shows "flags_inv c'"
proof (cases e)
  case (Settle k r)
  with assms(2) have k: "k < length (tasks c)"
    and c': "c' = resume (tasks c ! k) r (c\<lparr>tasks := remove_nth k (tasks c)\<rparr>)"
    by (auto split: if_splits)
  from k assms(1) have "task_inv (st c) (tasks c ! k)"
    by (simp add: flags_inv_def)
  with flags_inv_remove [OF assms(1), of k] show ?thesis
    unfolding c' by (intro flags_inv_resume) simp_all
next
  case Mount
  have "flags_inv (c\<lparr>catalog := Seeding\<rparr>)"
    using assms(1) by (simp add: flags_inv_def)
  then have "flags_inv (mount c)"
    unfolding mount_def by (rule flags_inv_run_effect)
  with Mount assms(2) show ?thesis
    by (auto split: if_splits)
next
  case (FetchSongsOk rows)
  have "task_inv ((st c)\<lparr>songs := rows\<rparr>) t = task_inv (st c) t" for t
    by (cases t) simp_all
  with FetchSongsOk assms show ?thesis
    by (auto simp: flags_inv_def split: if_splits)
next
  case FetchSongsErr
  with assms show ?thesis
    by (auto simp: flags_inv_def console_error_def split: if_splits)
next
  case (PressItem index)
  with assms show ?thesis
    by (auto split: if_splits intro!: flags_inv_commit)
next
  case PressPrevious
  with assms show ?thesis
    by (auto split: if_splits intro!: flags_inv_commit flags_inv_previousTrack)
next
  case PressPlayPause
  with assms show ?thesis
    by (auto split: if_splits intro!: flags_inv_playPauseTrack)
next
  case PressStop
  with assms show ?thesis
    by (auto split: if_splits intro!: flags_inv_stopTrack)
next
  case PressNext
  with assms show ?thesis
    by (auto split: if_splits intro!: flags_inv_commit flags_inv_nextTrack)
qed

lemma flags_inv_run:
  "flags_inv c \<Longrightarrow> run es c = Some c' \<Longrightarrow> flags_inv c'"
  by (induction es arbitrary: c) (auto split: option.splits dest: flags_inv_step)

lemma flags_inv_initial: "flags_inv initial"
  by (simp add: flags_inv_def initial_def)


subsection \<open>The index\<close>

lemma js_rem_nonneg: "0 \<le> a \<Longrightarrow> 0 < b \<Longrightarrow> js_rem (Num a) (Num b) = Num (a mod b)"
  by (cases "a = 0") (simp_all add: sgn_if)

lemma controls_rendered_index:
  assumes "controls_rendered s"
  obtains i where "currentTrackIndex s = Num i" and "0 \<le> i" and "i < int (length (songs s))"
  using assms by (cases "currentTrackIndex s") (auto simp: controls_rendered_def split: if_splits)

lemma next_index:
  assumes "0 \<le> i" and "i < int (length xs)"
  shows "js_rem (js_add (Num i) (Num 1)) (Num (int (length xs))) = Num ((i + 1) mod int (length xs))"
proof -
  from assms have "0 \<le> i + 1" and "0 < int (length xs)" by linarith+
  then show ?thesis by (simp add: js_rem_nonneg del: js_rem.simps)
qed

lemma prev_index:
  assumes "0 \<le> i" and "i < int (length xs)"
  shows "js_rem (js_add (js_sub (Num i) (Num 1)) (Num (int (length xs)))) (Num (int (length xs)))
         = Num ((i - 1 + int (length xs)) mod int (length xs))"
proof -
  from assms have "0 \<le> i - 1 + int (length xs)" and "0 < int (length xs)" by linarith+
  then show ?thesis by (simp add: js_rem_nonneg del: js_rem.simps)
qed

lemmas op_defs = suspend_def engine_call_def console_warn_def console_error_def
  playPauseTrack_def stopTrack_def loadTrack_try_def loadTrack_def run_cleanup_def run_effect_def

lemma catalog_after_loadTrack [simp]: "catalog (after_loadTrack who cl c) = catalog c"
  by (cases who) (simp_all add: op_defs split: option.splits)

lemma catalog_loadTrack [simp]: "catalog (loadTrack cl index who c) = catalog c"
  by (simp add: op_defs split: option.splits)

lemma catalog_setCurrentTrackIndex [simp]: "catalog (setCurrentTrackIndex i c) = catalog c"
  by (simp add: setCurrentTrackIndex_def)

lemma catalog_nextTrack [simp]: "catalog (nextTrack cl c) = catalog c"
  by (simp add: nextTrack_def Let_def)

lemma catalog_previousTrack [simp]: "catalog (previousTrack cl c) = catalog c"
  by (simp add: previousTrack_def Let_def)

lemma catalog_commit [simp]: "catalog (commit c) = catalog c"
  by (simp add: commit_def run_effect_def run_cleanup_def engine_call_def split: option.splits)

lemma effect_deps_after_loadTrack [simp]: "effect_deps (after_loadTrack who cl c) = effect_deps c"
  by (cases who) (simp_all add: op_defs split: option.splits)

lemma effect_deps_loadTrack [simp]: "effect_deps (loadTrack cl index who c) = effect_deps c"
  by (simp add: op_defs split: option.splits)

lemma effect_deps_commit [simp]: "effect_deps (commit c) = currentTrackIndex (st c)"
  by (simp add: commit_def run_effect_def)

lemma index_inv_st:
  assumes "index_inv c" and "st c' = st c" and "effect_deps c' = effect_deps c" and "catalog c' = catalog c"
  shows "index_inv c'"
  using assms by (simp add: index_inv_def)

lemma index_inv_resume:
  assumes "index_inv c"
  shows "index_inv (resume t r c)"
proof -
  have e: "effect_deps (resume t r c) = effect_deps c"
    by (cases t; cases r) (simp_all add: Let_def op_defs split: option.splits)
  have k: "catalog (resume t r c) = catalog c"
    by (cases t; cases r) (simp_all add: Let_def op_defs split: option.splits)
  have s: "currentTrackIndex (st (resume t r c)) = currentTrackIndex (st c) \<and> songs (st (resume t r c)) = songs (st c)"
    using st_resume_cases [of t r c] by auto
  from assms e k s show ?thesis by (simp add: index_inv_def)
qed

lemma index_inv_step:
  assumes "index_inv c" and "step e c = Some c'"
  shows "index_inv c'"
proof (cases e)
  case Mount
  with assms show ?thesis
    by (auto simp: index_inv_def mount_def run_effect_def split: if_splits)
next
  case (FetchSongsOk rows)
  with assms show ?thesis
    by (auto simp: index_inv_def split: if_splits)
next
  case FetchSongsErr
  with assms show ?thesis
    by (auto simp: index_inv_def console_error_def split: if_splits)
next
  case (PressItem index)
  with assms(2) have l: "index < length (songs (st c))"
    and c': "c' = commit (setCurrentTrackIndex (Num (int index)) c)"
    by (auto split: if_splits)
  from l assms(1) have "catalog c = Listed" by (auto simp: index_inv_def)
  with assms(1) l show ?thesis unfolding c' by (simp add: index_inv_def)
next
  case PressPrevious
  with assms(2) have r: "controls_rendered (st c)"
    and c': "c' = commit (previousTrack (st c) c)"
    by (auto split: if_splits)
  from r obtain i where i: "currentTrackIndex (st c) = Num i" "0 \<le> i" "i < int (length (songs (st c)))"
    by (rule controls_rendered_index)
  from i have n: "0 < int (length (songs (st c)))" "songs (st c) \<noteq> []" by auto
  from n assms(1) have "catalog c = Listed" by (auto simp: index_inv_def)
  with i n show ?thesis
    unfolding c' index_inv_def
    by (simp add: st_previousTrack prev_index
          del: js_rem.simps js_add.simps js_sub.simps)
next
  case PressNext
  with assms(2) have r: "controls_rendered (st c)"
    and c': "c' = commit (nextTrack (st c) c)"
    by (auto split: if_splits)
  from r obtain i where i: "currentTrackIndex (st c) = Num i" "0 \<le> i" "i < int (length (songs (st c)))"
    by (rule controls_rendered_index)
  from i have n: "0 < int (length (songs (st c)))" "songs (st c) \<noteq> []" by auto
  from n assms(1) have "catalog c = Listed" by (auto simp: index_inv_def)
  with i n show ?thesis
    unfolding c' index_inv_def
    by (simp add: st_nextTrack next_index
          del: js_rem.simps js_add.simps js_sub.simps)
next
  case PressPlayPause
  with assms show ?thesis
    by (auto split: if_splits intro!: index_inv_st [of c] simp: op_defs split: option.splits)
next
  case PressStop
  with assms show ?thesis
    by (auto split: if_splits intro!: index_inv_st [of c] simp: op_defs split: option.splits)
next
  case (Settle k r)
  with assms(2) have c': "c' = resume (tasks c ! k) r (c\<lparr>tasks := remove_nth k (tasks c)\<rparr>)"
    by (auto split: if_splits)
  have "index_inv (c\<lparr>tasks := remove_nth k (tasks c)\<rparr>)"
    using assms(1) by (simp add: index_inv_def)
  then show ?thesis unfolding c' by (rule index_inv_resume)
qed

lemma index_inv_run:
  "index_inv c \<Longrightarrow> run es c = Some c' \<Longrightarrow> index_inv c'"
  by (induction es arbitrary: c) (auto split: option.splits dest: index_inv_step)

lemma index_inv_initial: "index_inv initial"
  by (simp add: index_inv_def initial_def)

lemma press_current_item:
  assumes "index_inv c" and "index < length (songs (st c))"
    and "currentTrackIndex (st c) = Num (int index)"
  shows "step (PressItem index) c = Some c"
proof -
  from assms(1,2) have "catalog c = Listed" by (auto simp: index_inv_def)
  moreover have "setCurrentTrackIndex (Num (int index)) c = c"
    using assms(3) by (simp add: setCurrentTrackIndex_def)
  moreover have "commit c = c"
    using assms(1) by (simp add: commit_def index_inv_def)
  ultimately show ?thesis using assms(2) by simp
qed

text \<open>Presses of Next and Previous keep the playlist, and do nothing while it is empty.\<close>

lemma index_inv_press: "index_inv c \<Longrightarrow> index_inv (press e c)"
  by (auto simp: press_def split: option.splits dest: index_inv_step)

lemma songs_press:
  assumes "e = PressNext \<or> e = PressPrevious"
  shows "songs (st (press e c)) = songs (st c)"
  using assms
  by (auto simp: press_def st_nextTrack st_previousTrack split: option.splits if_splits)

lemma presses_inv:
  assumes "set ps \<subseteq> {PressNext, PressPrevious}" and "index_inv c"
  shows "index_inv (presses ps c) \<and> songs (st (presses ps c)) = songs (st c)"
  using assms
proof (induction ps arbitrary: c)
  case Nil
  then show ?case by simp
next
  case (Cons e ps)
  from Cons.prems(1) have e: "e = PressNext \<or> e = PressPrevious" and ps: "set ps \<subseteq> {PressNext, PressPrevious}"
    by auto
  from Cons.IH [OF ps index_inv_press [OF Cons.prems(2), of e]] songs_press [OF e, of c]
  show ?case by simp
qed

lemma presses_empty:
  assumes "set ps \<subseteq> {PressNext, PressPrevious}" and "songs (st c) = []"
  shows "presses ps c = c"
  using assms
proof (induction ps)
  case Nil
  then show ?case by simp
next
  case (Cons e ps)
  then have "press e c = c"
    by (auto simp: press_def controls_rendered_def)
  with Cons show ?case by simp
qed

subsection \<open>Settling an engine call\<close>

lemma units_after_loadTrack [simp]: "units (after_loadTrack who cl c) = units c"
  by (cases who) (simp_all add: op_defs split: option.splits)

lemma settle_Some:
  assumes "step (Settle k r) c = Some c'"
  shows "k < length (tasks c)" and "c' = resume (tasks c ! k) r (c\<lparr>tasks := remove_nth k (tasks c)\<rparr>)"
  using assms by (auto split: if_splits)

lemma st_step_settle:
  assumes "step (Settle k r) c = Some c'"
  shows "currentTrackIndex (st c') = currentTrackIndex (st c)"
  using settle_Some(2) [OF assms] st_resume_cases [of "tasks c ! k" r "c\<lparr>tasks := remove_nth k (tasks c)\<rparr>"]
  by auto

lemma console_after_loadTrack:
  "m \<in> set (console c) \<Longrightarrow> m \<in> set (console (after_loadTrack who cl c))"
  by (cases who) (auto simp: op_defs split: option.splits)

lemma press_other_item:
  assumes "index_inv c" and "j < length (songs (st c))"
    and "currentTrackIndex (st c) \<noteq> Num (int j)"
  shows "\<exists>d. step (PressItem j) c = Some d \<and>
             st d = (st c)\<lparr>currentTrackIndex := Num (int j)\<rparr> \<and>
             length (tasks d) = Suc (length (tasks c)) \<and>
             (last (tasks d) = AwaitUnload (st d) (Num (int j)) Effect \<or>
              last (tasks d) = AwaitCreate (st d) (uri (songs (st c) ! j)) Effect)"
proof -
  from assms(1,2) have l: "catalog c = Listed" by (auto simp: index_inv_def)
  from assms(1,3) have e: "effect_deps c \<noteq> Num (int j)" by (auto simp: index_inv_def)
  show ?thesis
    using l e assms(2)
    by (auto simp: commit_def setCurrentTrackIndex_def op_defs split: option.splits)
qed


subsection \<open>The loaded flag and the held sound never go back\<close>

lemma loaded_step:
  assumes "step e c = Some c'"
  shows "(isSoundLoaded (st c) \<longrightarrow> isSoundLoaded (st c')) \<and> (sound (st c) \<noteq> None \<longrightarrow> sound (st c') \<noteq> None)"
proof (cases e)
  case (Settle k r)
  then show ?thesis
    using settle_Some(2) [of k r c c'] assms
      st_resume_cases [of "tasks c ! k" r "c\<lparr>tasks := remove_nth k (tasks c)\<rparr>"]
    by auto
qed (use assms in \<open>auto simp: mount_def st_nextTrack st_previousTrack split: if_splits\<close>)

lemma loaded_run:
  "run es c = Some c' \<Longrightarrow>
   (isSoundLoaded (st c) \<longrightarrow> isSoundLoaded (st c')) \<and> (sound (st c) \<noteq> None \<longrightarrow> sound (st c') \<noteq> None)"
proof (induction es arbitrary: c)
  case Nil
  then show ?case by simp
next
  case (Cons e es)
  then obtain d where d: "step e c = Some d" "run es d = Some c'"
    by (auto split: option.splits)
  from loaded_step [OF d(1)] Cons.IH [OF d(2)] show ?case by blast
qed

section \<open>The claims\<close>

text \<open>
  C1 (as amended). The source has no stale-load guard. When the completion of a load is
  processed and the engine has created the unit, the completion installs that unit as
  the held sound and sets the loaded flag, whatever has been selected since and
  whichever load it belongs to; it does not touch the current index. So after a
  selection of track 0 followed by a selection of track 1 the current index stays 1,
  and the held sound is the unit of the load that completed last.
\<close>

theorem load_completion_overwrites:
  assumes "step (Settle k Resolved) c = Some c'" and "tasks c ! k = AwaitCreate cl track who"
  shows "sound (st c') = Some (length (units c)) \<and> units c' ! length (units c) = track \<and>
         isSoundLoaded (st c') \<and> currentTrackIndex (st c') = currentTrackIndex (st c)"
  using settle_Some(2) [OF assms(1)] assms(2) by (simp add: Let_def)

text \<open>The instance of C1 in which the first selection's load completes last.\<close>

theorem load_completion_overwrites_witness:
  "step (Settle 0 Resolved) (after second_load_done) = Some (after first_load_done_late) \<and>
   tasks (after second_load_done) ! 0
     = AwaitCreate (closure_of (tasks (after second_load_done) ! 0))
         (uri (hardcodedSongs ! 0)) Effect \<and>
   sound (st (after first_load_done_late)) = Some (length (units (after second_load_done))) \<and>
   units (after first_load_done_late) ! length (units (after second_load_done))
     = uri (hardcodedSongs ! 0) \<and>
   isSoundLoaded (st (after first_load_done_late)) \<and>
   currentTrackIndex (st (after first_load_done_late))
     = currentTrackIndex (st (after second_load_done))"
proof -
  have s: "step (Settle 0 Resolved) (after second_load_done) = Some (after first_load_done_late)"
    by code_simp
  have t: "tasks (after second_load_done) ! 0
     = AwaitCreate (closure_of (tasks (after second_load_done) ! 0))
         (uri (hardcodedSongs ! 0)) Effect"
    by code_simp
  from load_completion_overwrites [OF s t] s t show ?thesis by blast
qed

text \<open>C1 as stated fails: track 0 and then track 1 are selected before either load
  completes (the two pending creations belong to closures with index 0 and 1); once
  the second load has completed the held sound is unit 1, created from track 1; when
  the first load's completion is then processed, the held sound becomes unit 2, created
  from track 0, while the current index is 1.\<close>

theorem stale_load_counterexample:
  "possible first_load_done_late \<and>
   currentTrackIndex (closure_of (tasks (after two_selections) ! 0)) = Num 0 \<and>
   currentTrackIndex (closure_of (tasks (after two_selections) ! 1)) = Num 1 \<and>
   currentTrackIndex (st (after second_load_done)) = Num 1 \<and>
   sound (st (after second_load_done)) = Some 1 \<and>
   units (after second_load_done) ! 1 = uri (hardcodedSongs ! 1) \<and>
   currentTrackIndex (st (after first_load_done_late)) = Num 1 \<and>
   sound (st (after first_load_done_late)) = Some 2 \<and>
   units (after first_load_done_late) ! 2 = uri (hardcodedSongs ! 0) \<and>
   uri (hardcodedSongs ! 0) \<noteq> uri (hardcodedSongs ! 1)"
  by code_simp

text \<open>
  C2. \<open>nextTrack\<close> does not start the new track. Its last line calls the
  \<open>playPauseTrack\<close> of the render the handler belongs to, which toggles on the sound and
  the flags of that render. Pressed before anything was loaded, it only warns: both
  creations succeed, no call is pending, and no play call was ever made. Pressed while
  a track plays, it pauses the old unit (which \<open>loadTrack\<close> has unloaded) and sets
  \<open>isPlaying\<close> to false; no play call reaches the new units 1 and 2.
\<close>

theorem next_does_not_start_playback:
  "possible first_next \<and>
   tasks (after first_next) = [] \<and>
   currentTrackIndex (st (after first_next)) = Num 1 \<and>
   sound (st (after first_next)) = Some 1 \<and>
   \<not> isPlaying (st (after first_next)) \<and>
   calls (after first_next)
     = [CreateAsync (uri (hardcodedSongs ! 1)), CreateAsync (uri (hardcodedSongs ! 1))] \<and>
   ConsoleWarn ''Sound is not loaded yet.'' \<in> set (console (after first_next)) \<and>
   possible next_while_playing \<and>
   isPlaying (st (after playing_track_1)) \<and>
   sound (st (after playing_track_1)) = Some 0 \<and>
   tasks (after next_while_playing) = [] \<and>
   currentTrackIndex (st (after next_while_playing)) = Num 2 \<and>
   sound (st (after next_while_playing)) = Some 2 \<and>
   \<not> isPlaying (st (after next_while_playing)) \<and>
   last (calls (after next_while_playing)) = PauseAsync 0 \<and>
   PlayAsync 1 \<notin> set (calls (after next_while_playing)) \<and>
   PlayAsync 2 \<notin> set (calls (after next_while_playing))"
  by code_simp

text \<open>
  C3. In every configuration reached from the first render, and for every sequence of
  presses of Next and Previous made there: if the playlist has \<open>N > 0\<close> songs, the
  current index is an integer \<open>i\<close> in \<open>[0, N)\<close>, Next runs \<open>nextTrack\<close> and sets it to
  \<open>(i + 1) mod N\<close>, Previous runs \<open>previousTrack\<close> and sets it to \<open>(i - 1 + N) mod N\<close>, and
  after the whole sequence the index is again in \<open>[0, N)\<close>; if the playlist is empty,
  Next and Previous are not on the screen, and every such press and sequence of presses
  leaves the configuration unchanged.
\<close>

theorem index_stays_in_range:
  assumes "run es initial = Some c" and "set ps \<subseteq> {PressNext, PressPrevious}"
  shows "(songs (st c) \<noteq> [] \<longrightarrow>
           (\<exists>i. currentTrackIndex (st c) = Num i \<and> 0 \<le> i \<and> i < int (length (songs (st c))) \<and>
                press PressNext c = commit (nextTrack (st c) c) \<and>
                currentTrackIndex (st (press PressNext c))
                  = Num ((i + 1) mod int (length (songs (st c)))) \<and>
                press PressPrevious c = commit (previousTrack (st c) c) \<and>
                currentTrackIndex (st (press PressPrevious c))
                  = Num ((i - 1 + int (length (songs (st c)))) mod int (length (songs (st c))))) \<and>
           (\<exists>j. currentTrackIndex (st (presses ps c)) = Num j \<and> 0 \<le> j \<and>
                j < int (length (songs (st c))))) \<and>
         (songs (st c) = [] \<longrightarrow>
            step PressNext c = None \<and> step PressPrevious c = None \<and>
            press PressNext c = c \<and> press PressPrevious c = c \<and> presses ps c = c)"
proof -
  have inv: "index_inv c"
    using index_inv_run [OF index_inv_initial assms(1)] .
  have e: "step PressNext c = None \<and> step PressPrevious c = None \<and>
           press PressNext c = c \<and> press PressPrevious c = c \<and> presses ps c = c"
    if "songs (st c) = []"
    using that presses_empty [OF assms(2) that] by (simp add: controls_rendered_def press_def)
  have n: "(\<exists>i. currentTrackIndex (st c) = Num i \<and> 0 \<le> i \<and> i < int (length (songs (st c))) \<and>
                press PressNext c = commit (nextTrack (st c) c) \<and>
                currentTrackIndex (st (press PressNext c))
                  = Num ((i + 1) mod int (length (songs (st c)))) \<and>
                press PressPrevious c = commit (previousTrack (st c) c) \<and>
                currentTrackIndex (st (press PressPrevious c))
                  = Num ((i - 1 + int (length (songs (st c)))) mod int (length (songs (st c))))) \<and>
           (\<exists>j. currentTrackIndex (st (presses ps c)) = Num j \<and> 0 \<le> j \<and>
                j < int (length (songs (st c))))"
    if s: "songs (st c) \<noteq> []"
  proof -
    from inv s obtain i where i: "currentTrackIndex (st c) = Num i" "0 \<le> i" "i < int (length (songs (st c)))"
      by (auto simp: index_inv_def)
    from inv s have l: "catalog c \<noteq> Unmounted" by (auto simp: index_inv_def)
    from i s have r: "controls_rendered (st c)" by (simp add: controls_rendered_def)
    from l r have pn: "press PressNext c = commit (nextTrack (st c) c)"
      and pp: "press PressPrevious c = commit (previousTrack (st c) c)"
      by (simp_all add: press_def)
    have "currentTrackIndex (st (press PressNext c)) = Num ((i + 1) mod int (length (songs (st c))))"
      unfolding pn using i by (simp add: st_nextTrack next_index del: js_rem.simps js_add.simps js_sub.simps)
    moreover have "currentTrackIndex (st (press PressPrevious c))
                  = Num ((i - 1 + int (length (songs (st c)))) mod int (length (songs (st c))))"
      unfolding pp using i by (simp add: st_previousTrack prev_index del: js_rem.simps js_add.simps js_sub.simps)
    moreover from presses_inv [OF assms(2) inv] s
    have "\<exists>j. currentTrackIndex (st (presses ps c)) = Num j \<and> 0 \<le> j \<and> j < int (length (songs (st c)))"
      by (auto simp: index_inv_def)
    ultimately show ?thesis using i pn pp by blast
  qed
  from e n show ?thesis by blast
qed

text \<open>The instances of C3 with the second of five tracks current, and with the empty
  playlist.\<close>

theorem index_stays_in_range_witness:
  "run loaded_track_1 initial = Some (after loaded_track_1) \<and>
   set [PressNext, PressNext, PressNext, PressNext, PressPrevious] \<subseteq> {PressNext, PressPrevious} \<and>
   songs (st (after loaded_track_1)) \<noteq> [] \<and>
   length (songs (st (after loaded_track_1))) = 5 \<and>
   currentTrackIndex (st (after loaded_track_1)) = Num 1 \<and>
   currentTrackIndex (st (press PressNext (after loaded_track_1))) = Num 2 \<and>
   currentTrackIndex (st (press PressPrevious (after loaded_track_1))) = Num 0 \<and>
   currentTrackIndex (st (presses [PressNext, PressNext, PressNext, PressNext, PressPrevious]
                            (after loaded_track_1))) = Num 4 \<and>
   (\<exists>j. currentTrackIndex (st (presses [PressNext, PressNext, PressNext, PressNext, PressPrevious]
                            (after loaded_track_1))) = Num j \<and> 0 \<le> j \<and> j < 5) \<and>
   run [Mount] initial = Some (after [Mount]) \<and>
   songs (st (after [Mount])) = [] \<and>
   step PressNext (after [Mount]) = None \<and>
   step PressPrevious (after [Mount]) = None \<and>
   presses [PressNext, PressNext, PressNext, PressNext, PressPrevious] (after [Mount])
     = after [Mount]"
proof -
  let ?ps = "[PressNext, PressNext, PressNext, PressNext, PressPrevious]"
  have p: "set ?ps \<subseteq> {PressNext, PressPrevious}" by simp
  have r1: "run loaded_track_1 initial = Some (after loaded_track_1)" by code_simp
  have n1: "songs (st (after loaded_track_1)) \<noteq> []" by code_simp
  have l1: "length (songs (st (after loaded_track_1))) = 5" by code_simp
  have i1: "currentTrackIndex (st (after loaded_track_1)) = Num 1" by code_simp
  have w1: "currentTrackIndex (st (presses ?ps (after loaded_track_1))) = Num 4" by code_simp
  have r2: "run [Mount] initial = Some (after [Mount])" by code_simp
  have n2: "songs (st (after [Mount])) = []" by code_simp
  from index_stays_in_range [OF r1 p] n1 l1 i1
  have a: "currentTrackIndex (st (press PressNext (after loaded_track_1))) = Num 2 \<and>
        currentTrackIndex (st (press PressPrevious (after loaded_track_1))) = Num 0 \<and>
        (\<exists>j. currentTrackIndex (st (presses ?ps (after loaded_track_1))) = Num j \<and> 0 \<le> j \<and> j < 5)"
    by auto
  from index_stays_in_range [OF r2 p] n2
  have b: "step PressNext (after [Mount]) = None \<and> step PressPrevious (after [Mount]) = None \<and>
        presses ?ps (after [Mount]) = after [Mount]"
    by blast
  from a b p r1 n1 l1 i1 w1 r2 n2 show ?thesis by blast
qed

text \<open>
  C4 (as amended). In every configuration that a sequence of events reaches from the
  first render (presses, the catalogue's answer, engine calls settling either way),
  \<open>isPlaying\<close> implies that the flag \<open>isSoundLoaded\<close> is set and that a sound is held.
  The held sound need not be loaded in the engine any more.
\<close>

theorem playing_implies_loaded:
  assumes "run es initial = Some c" and "isPlaying (st c)"
  shows "isSoundLoaded (st c) \<and> sound (st c) \<noteq> None"
  using flags_inv_run [OF flags_inv_initial assms(1)] assms(2)
  by (simp add: flags_inv_def)

text \<open>The instance of C4 with the second track playing.\<close>

theorem playing_implies_loaded_witness:
  "run playing_track_1 initial = Some (after playing_track_1) \<and>
   isPlaying (st (after playing_track_1)) \<and>
   isSoundLoaded (st (after playing_track_1)) \<and>
   sound (st (after playing_track_1)) \<noteq> None"
proof -
  have r: "run playing_track_1 initial = Some (after playing_track_1)" by code_simp
  have p: "isPlaying (st (after playing_track_1))" by code_simp
  from playing_implies_loaded [OF r p] r p show ?thesis by simp
qed

text \<open>C4 as stated fails when loaded means loaded in the engine: the second track
  plays and the third row is tapped. Once the unload of unit 0 has resolved,
  \<open>isPlaying\<close> is still true while unit 0, still held as \<open>sound\<close>, is unloaded and no
  unit is loaded at all; it stays so when the new load then fails and nothing is
  pending.\<close>

theorem playing_unloaded_counterexample:
  "possible failed_switch_while_playing \<and>
   isPlaying (st (after switching_while_playing)) \<and>
   sound (st (after switching_while_playing)) = Some 0 \<and>
   unloaded (after switching_while_playing) 0 \<and>
   live_units (after switching_while_playing) = [] \<and>
   isPlaying (st (after failed_switch_while_playing)) \<and>
   sound (st (after failed_switch_while_playing)) = Some 0 \<and>
   unloaded (after failed_switch_while_playing) 0 \<and>
   live_units (after failed_switch_while_playing) = [] \<and>
   tasks (after failed_switch_while_playing) = []"
  by code_simp

text \<open>
  C5 (as amended). When the engine rejects the creation of a unit, the \<open>catch\<close> of
  \<open>loadTrack\<close> appends one error to the console (followed, under \<open>nextTrack\<close> and
  \<open>previousTrack\<close>, by the warning of their \<open>playPauseTrack()\<close> when its guard rejects)
  and leaves the React state exactly as it was: the index stays at the selected track,
  and the sound and the loaded flag keep their values (the flag is false afterwards
  only if no load had succeeded before). A load started by the effect makes no further
  engine call and just ends. The player goes on: tapping the row that is current does
  nothing, tapping any other row selects it and starts a new load.
\<close>

theorem failed_load_keeps_state:
  assumes "run es initial = Some c" and "step (Settle k Rejected) c = Some c'"
    and "tasks c ! k = AwaitCreate cl track who"
  shows "st c' = st c \<and> units c' = units c \<and>
         console c' = console c @ ConsoleError ''Error loading audio track:'' #
            (if who = Transport \<and> (sound cl = None \<or> \<not> isSoundLoaded cl)
             then [ConsoleWarn ''Sound is not loaded yet.''] else []) \<and>
         (who = Effect \<longrightarrow> calls c' = calls c \<and> tasks c' = remove_nth k (tasks c)) \<and>
         (j < length (songs (st c')) \<longrightarrow>
            (if currentTrackIndex (st c') = Num (int j) then step (PressItem j) c' = Some c'
             else \<exists>d. step (PressItem j) c' = Some d \<and>
                      st d = (st c')\<lparr>currentTrackIndex := Num (int j)\<rparr> \<and>
                      length (tasks d) = Suc (length (tasks c')) \<and>
                      (last (tasks d) = AwaitUnload (st d) (Num (int j)) Effect \<or>
                       last (tasks d) = AwaitCreate (st d) (uri (songs (st c') ! j)) Effect)))"
proof -
  have inv: "index_inv c'"
    using index_inv_step [OF index_inv_run [OF index_inv_initial assms(1)] assms(2)] .
  have c': "c' = after_loadTrack who cl (console_error ''Error loading audio track:'' (c\<lparr>tasks := remove_nth k (tasks c)\<rparr>))"
    using settle_Some(2) [OF assms(2)] assms(3) by simp
  have "console c' = console c @ ConsoleError ''Error loading audio track:'' #
            (if who = Transport \<and> (sound cl = None \<or> \<not> isSoundLoaded cl)
             then [ConsoleWarn ''Sound is not loaded yet.''] else [])"
    unfolding c' by (cases who) (auto simp: op_defs split: option.splits)
  moreover have "who = Effect \<longrightarrow> calls c' = calls c \<and> tasks c' = remove_nth k (tasks c)"
    unfolding c' by (auto simp: console_error_def)
  moreover have "st c' = st c" "units c' = units c"
    unfolding c' by (simp_all add: console_error_def)
  ultimately show ?thesis
    using press_current_item [OF inv, of j] press_other_item [OF inv, of j] by auto
qed

text \<open>The instance of C5 in which the load of the third track fails after the second
  track had been loaded; then the third row (current) and the fourth row are tapped.\<close>

theorem failed_load_keeps_state_witness:
  "run switching_to_2 initial = Some (after switching_to_2) \<and>
   step (Settle 0 Rejected) (after switching_to_2) = Some (after failed_switch) \<and>
   tasks (after switching_to_2) ! 0
     = AwaitCreate (closure_of (tasks (after switching_to_2) ! 0)) (uri (hardcodedSongs ! 2)) Effect \<and>
   st (after failed_switch) = st (after switching_to_2) \<and>
   units (after failed_switch) = units (after switching_to_2) \<and>
   console (after failed_switch)
     = console (after switching_to_2) @ [ConsoleError ''Error loading audio track:''] \<and>
   calls (after failed_switch) = calls (after switching_to_2) \<and>
   tasks (after failed_switch) = remove_nth 0 (tasks (after switching_to_2)) \<and>
   currentTrackIndex (st (after failed_switch)) = Num 2 \<and>
   step (PressItem 2) (after failed_switch) = Some (after failed_switch) \<and>
   (\<exists>d. step (PressItem 3) (after failed_switch) = Some d \<and>
        st d = (st (after failed_switch))\<lparr>currentTrackIndex := Num 3\<rparr> \<and>
        length (tasks d) = Suc (length (tasks (after failed_switch))))"
proof -
  have r: "run switching_to_2 initial = Some (after switching_to_2)" by code_simp
  have s: "step (Settle 0 Rejected) (after switching_to_2) = Some (after failed_switch)"
    by code_simp
  have t: "tasks (after switching_to_2) ! 0
     = AwaitCreate (closure_of (tasks (after switching_to_2) ! 0)) (uri (hardcodedSongs ! 2)) Effect"
    by code_simp
  have i: "currentTrackIndex (st (after failed_switch)) = Num 2" by code_simp
  have l: "length (songs (st (after failed_switch))) = 5" by code_simp
  from failed_load_keeps_state [OF r s t, of 2] failed_load_keeps_state [OF r s t, of 3]
    r s t i l
  show ?thesis by auto
qed

text \<open>C5 as stated fails: the second track was loaded, then the third row is tapped
  and the creation of its unit is rejected. The rejection adds its error to the
  console. Afterwards the loaded flag is still true, and the held sound is still unit
  0, which has been unloaded; tapping the third row again changes nothing and starts
  no load.\<close>

theorem failed_load_counterexample:
  "possible failed_switch \<and>
   console (after switching_to_2) = [ConsoleError ''Error loading audio track:''] \<and>
   console (after failed_switch)
     = [ConsoleError ''Error loading audio track:'', ConsoleError ''Error loading audio track:''] \<and>
   currentTrackIndex (st (after failed_switch)) = Num 2 \<and>
   isSoundLoaded (st (after failed_switch)) \<and>
   sound (st (after failed_switch)) = Some 0 \<and>
   unloaded (after failed_switch) 0 \<and>
   tasks (after failed_switch) = [] \<and>
   step (PressItem 2) (after failed_switch) = Some (after failed_switch)"
  by code_simp

text \<open>
  C6. The player does not keep to one loaded unit. With unit 0 loaded, Next is pressed:
  \<open>nextTrack\<close> calls \<open>loadTrack\<close> itself and, by changing the index, makes the effect call
  it again. Each of the two calls unloads unit 0 and creates a unit of its own. In the
  end units 1 and 2 are both loaded, only unit 2 is held as \<open>sound\<close>, unit 1 was never
  unloaded, and unit 0 was unloaded twice.
\<close>

theorem next_loads_two_units:
  "possible next_after_load \<and>
   sound (st (after loaded_track_1)) = Some 0 \<and>
   live_units (after loaded_track_1) = [0] \<and>
   tasks (after next_after_load) = [] \<and>
   sound (st (after next_after_load)) = Some 2 \<and>
   live_units (after next_after_load) = [1, 2] \<and>
   units (after next_after_load) ! 1 = uri (hardcodedSongs ! 2) \<and>
   units (after next_after_load) ! 2 = uri (hardcodedSongs ! 2) \<and>
   unload_count (after next_after_load) 0 = 2 \<and>
   unload_count (after next_after_load) 1 = 0"
  by code_simp

text \<open>
  C7. No load is started when the playlist arrives. The only automatic call of
  \<open>loadTrack\<close> is the one of the first render, where \<open>songs\<close> is still empty: it fails in
  the \<open>try\<close> block and is logged. When the catalogue answers, with whatever rows, the
  effect does not run again, since its dependency \<open>currentTrackIndex\<close> is unchanged: no
  engine call has been made, none is pending, and nothing is loaded. Tapping the first
  row does not load it either.
\<close>

theorem no_load_when_playlist_arrives:
  "possible [Mount, FetchSongsOk rows] \<and>
   calls (after [Mount, FetchSongsOk rows]) = [] \<and>
   tasks (after [Mount, FetchSongsOk rows]) = [] \<and>
   st (after [Mount, FetchSongsOk rows])
     = \<lparr>sound = None, isPlaying = False, isSoundLoaded = False,
        currentTrackIndex = Num 0, songs = rows\<rparr> \<and>
   console (after [Mount, FetchSongsOk rows]) = [ConsoleError ''Error loading audio track:''] \<and>
   step (PressItem 0) (after seeded) = Some (after seeded)"
proof -
  have "step (PressItem 0) (after seeded) = Some (after seeded)"
    by code_simp
  then show ?thesis
    by (simp add: possible_def after_def initial_def mount_def op_defs)
qed




text \<open>
  C9. In every configuration reached from the first render, tapping the row of the
  track that is already current changes nothing at all: the state, the pending tasks
  and the log of engine calls are the same afterwards, so no load is started. This
  holds whether or not the track's sound is loaded.
\<close>

theorem reselect_current_is_noop:
  assumes "run es initial = Some c" and "index < length (songs (st c))"
    and "currentTrackIndex (st c) = Num (int index)"
  shows "step (PressItem index) c = Some c"
  using press_current_item [OF index_inv_run [OF index_inv_initial assms(1)] assms(2,3)] .

text \<open>The instance of C9 with the second track current and loaded.\<close>

theorem reselect_current_is_noop_witness:
  "run loaded_track_1 initial = Some (after loaded_track_1) \<and>
   1 < length (songs (st (after loaded_track_1))) \<and>
   currentTrackIndex (st (after loaded_track_1)) = Num (int 1) \<and>
   isSoundLoaded (st (after loaded_track_1)) \<and>
   step (PressItem 1) (after loaded_track_1) = Some (after loaded_track_1)"
proof -
  have r: "run loaded_track_1 initial = Some (after loaded_track_1)" by code_simp
  have l: "1 < length (songs (st (after loaded_track_1)))" by code_simp
  have i: "currentTrackIndex (st (after loaded_track_1)) = Num (int 1)" by code_simp
  have f: "isSoundLoaded (st (after loaded_track_1))" by code_simp
  from reselect_current_is_noop [OF r l i] r l i f show ?thesis by blast
qed

text \<open>
  C10. Once \<open>isSoundLoaded\<close> is true it stays true, from any configuration and through
  any events (track switches, failed loads, stop). In a reachable configuration the
  guards of \<open>playPauseTrack\<close> and \<open>stopTrack\<close> reject exactly while the flag is false, and
  with the flag true they pass the command on to the held sound. That sound need not be
  loaded any more: after the failed switch to the third track the held unit 0 has been
  unloaded, no unit is loaded and no call is pending, and Play/Pause and Stop still
  reach the engine as calls on unit 0.
\<close>

theorem loaded_flag_never_cleared:
  "(run es c = Some c' \<and> isSoundLoaded (st c) \<longrightarrow> isSoundLoaded (st c')) \<and>
   (run es' initial = Some d \<longrightarrow>
      (if isSoundLoaded (st d)
       then \<exists>s. sound (st d) = Some s \<and>
                stopTrack (st d) d = suspend (AwaitStop (st d)) (StopAsync s) d \<and>
                playPauseTrack (st d) d
                  = suspend (AwaitPlayPause (st d))
                      (if isPlaying (st d) then PauseAsync s else PlayAsync s) d
       else stopTrack (st d) d = console_warn ''Sound is not loaded, unable to stop.'' d \<and>
            playPauseTrack (st d) d = console_warn ''Sound is not loaded yet.'' d)) \<and>
   possible failed_switch \<and>
   isSoundLoaded (st (after failed_switch)) \<and>
   sound (st (after failed_switch)) = Some 0 \<and>
   unloaded (after failed_switch) 0 \<and>
   live_units (after failed_switch) = [] \<and>
   tasks (after failed_switch) = [] \<and>
   step PressPlayPause (after failed_switch)
     = Some (suspend (AwaitPlayPause (st (after failed_switch))) (PlayAsync 0)
               (after failed_switch)) \<and>
   step PressStop (after failed_switch)
     = Some (suspend (AwaitStop (st (after failed_switch))) (StopAsync 0)
               (after failed_switch))"
proof -
  have a: "isSoundLoaded (st c')" if "run es c = Some c'" and "isSoundLoaded (st c)"
    using loaded_run [OF that(1)] that(2) by blast
  have b: "if isSoundLoaded (st d)
       then \<exists>s. sound (st d) = Some s \<and>
                stopTrack (st d) d = suspend (AwaitStop (st d)) (StopAsync s) d \<and>
                playPauseTrack (st d) d
                  = suspend (AwaitPlayPause (st d))
                      (if isPlaying (st d) then PauseAsync s else PlayAsync s) d
       else stopTrack (st d) d = console_warn ''Sound is not loaded, unable to stop.'' d \<and>
            playPauseTrack (st d) d = console_warn ''Sound is not loaded yet.'' d"
    if "run es' initial = Some d"
  proof -
    from flags_inv_run [OF flags_inv_initial that]
    have "isSoundLoaded (st d) \<longrightarrow> sound (st d) \<noteq> None"
      by (simp add: flags_inv_def)
    then show ?thesis
      by (auto simp: stopTrack_def playPauseTrack_def split: option.splits)
  qed
  have s: "possible failed_switch \<and>
   isSoundLoaded (st (after failed_switch)) \<and>
   sound (st (after failed_switch)) = Some 0 \<and>
   unloaded (after failed_switch) 0 \<and>
   live_units (after failed_switch) = [] \<and>
   tasks (after failed_switch) = [] \<and>
   step PressPlayPause (after failed_switch)
     = Some (suspend (AwaitPlayPause (st (after failed_switch))) (PlayAsync 0)
               (after failed_switch)) \<and>
   step PressStop (after failed_switch)
     = Some (suspend (AwaitStop (st (after failed_switch))) (StopAsync 0)
               (after failed_switch))"
    by code_simp
  from a b s show ?thesis by blast
qed

text \<open>The instances of C10: the flag through the failed switch to the third track, the
  guards with the flag set (after that switch) and with the flag not set (before any
  load).\<close>

theorem loaded_flag_never_cleared_witness:
  "run [PressItem 2, Settle 0 Resolved, Settle 0 Rejected] (after loaded_track_1)
     = Some (after failed_switch) \<and>
   isSoundLoaded (st (after loaded_track_1)) \<and>
   isSoundLoaded (st (after failed_switch)) \<and>
   run failed_switch initial = Some (after failed_switch) \<and>
   stopTrack (st (after failed_switch)) (after failed_switch)
     = suspend (AwaitStop (st (after failed_switch))) (StopAsync 0) (after failed_switch) \<and>
   run seeded initial = Some (after seeded) \<and>
   \<not> isSoundLoaded (st (after seeded)) \<and>
   stopTrack (st (after seeded)) (after seeded)
     = console_warn ''Sound is not loaded, unable to stop.'' (after seeded) \<and>
   playPauseTrack (st (after seeded)) (after seeded)
     = console_warn ''Sound is not loaded yet.'' (after seeded)"
proof -
  have r: "run [PressItem 2, Settle 0 Resolved, Settle 0 Rejected] (after loaded_track_1)
             = Some (after failed_switch)"
    by code_simp
  have f: "isSoundLoaded (st (after loaded_track_1))" by code_simp
  have r1: "run failed_switch initial = Some (after failed_switch)" by code_simp
  have s1: "sound (st (after failed_switch)) = Some 0" by code_simp
  have r2: "run seeded initial = Some (after seeded)" by code_simp
  have f2: "\<not> isSoundLoaded (st (after seeded))" by code_simp
  from loaded_flag_never_cleared [of "[PressItem 2, Settle 0 Resolved, Settle 0 Rejected]"
         "after loaded_track_1" "after failed_switch" failed_switch "after failed_switch"]
       loaded_flag_never_cleared [of "[PressItem 2, Settle 0 Resolved, Settle 0 Rejected]"
         "after loaded_track_1" "after failed_switch" seeded "after seeded"]
       r f r1 s1 r2 f2
  show ?thesis by auto
qed

end
